theory Spec2Isabelle
  imports Complex_Main "HOL-Library.Sublist"
begin

section \<open>The metrics dashboard (src/pages/index.js)\<close>

text \<open>
  The dashboard is one React component. Its \<open>useState\<close> cells are the fields of a
  state record, its event handlers and effects are functions from state to state, and
  the values computed during a render (the statistics, the paginated lists) are
  functions of the state.

  Conventions of the embedding:
  \<^item> strings are ASCII character lists;
  \<^item> quantities that the program only uses as integers (array lengths, indices, page
    numbers, counters) are \<open>nat\<close> or \<open>int\<close>; JavaScript computes them in binary64,
    which is exact for integers below \<open>2 ^ 53\<close>, and array lengths stay below \<open>2 ^ 32\<close>;
  \<^item> the division operator leaves the integers, so it is modelled with the rounding of
    binary64 (round to nearest, ties to even).
\<close>

subsection \<open>Rows fetched from the data store\<close>

record MetricRow =
  date :: string
  new_records_count :: nat

record NodeRecord =
  peer_id :: string
  version :: string
  peer_count :: nat
  timestamp :: nat

subsection \<open>Distinct peer ids: \<open>[...new Set(activeNodes.map((node) => node.peer_id))]\<close>\<close>

text \<open>
  A JavaScript \<open>Set\<close> keeps its entries in insertion order and ignores the insertion of a
  value it already holds. It is modelled by the list of its entries in that order; the
  constructor adds the elements of the iterable one after the other, and spreading the
  set yields the entries in order.
\<close>

definition Set_add :: "'a list \<Rightarrow> 'a \<Rightarrow> 'a list" where
  "Set_add s x = (if x \<in> set s then s else s @ [x])"

definition new_Set :: "'a list \<Rightarrow> 'a list" where
  "new_Set xs = foldl Set_add [] xs"

definition activePeerIds :: "NodeRecord list \<Rightarrow> string list" where
  "activePeerIds nodes = new_Set (map peer_id nodes)"

text \<open>Position of the first occurrence of a value in a sequence.\<close>

definition first_index :: "'a list \<Rightarrow> 'a \<Rightarrow> nat" where
  "first_index xs x = length (takeWhile (\<lambda>y. y \<noteq> x) xs)"

subsection \<open>JavaScript numbers and the division operator\<close>

text \<open>
  A JavaScript number is a binary64 value: a finite one (a rational), an infinity or
  \<open>NaN\<close>. Only non-negative values occur in the program.
\<close>

datatype jsnumber = Finite rat | Infinity | NaN

text \<open>Number of binary digits of a natural number.\<close>

fun bit_length :: "nat \<Rightarrow> nat" where
  "bit_length n = (if n = 0 then 0 else Suc (bit_length (n div 2)))"

declare bit_length.simps [simp del]

text \<open>
  The binary exponent of the quotient \<open>a / b\<close> of two positive integers: the integer
  \<open>e\<close> with \<open>2 ^ e \<le> a / b < 2 ^ (e + 1)\<close>.
\<close>

definition binary_exponent :: "nat \<Rightarrow> nat \<Rightarrow> int" where
  "binary_exponent a b =
     (let d = int (bit_length a) - int (bit_length b)
      in if b * 2 ^ bit_length a \<le> a * 2 ^ bit_length b then d else d - 1)"

text \<open>Rounding to the nearest integer, a tie going to the even neighbour.\<close>

definition round_half_even :: "rat \<Rightarrow> int" where
  "round_half_even x =
     (let f = \<lfloor>x\<rfloor>; r = x - of_int f
      in if r < 1 / 2 then f
         else if 1 / 2 < r then f + 1
         else if even f then f else f + 1)"

text \<open>
  The binary64 value of \<open>a / b\<close> for integers \<open>a \<ge> 0\<close> and \<open>b > 0\<close>: the quotient
  rounded to 53 significant binary digits. (Quotients of integers below \<open>2 ^ 53\<close> lie
  between \<open>2 ^ - 53\<close> and \<open>2 ^ 53\<close>, inside the range of normal numbers, so neither
  overflow nor gradual underflow occurs.)
\<close>

definition binary64_quotient :: "nat \<Rightarrow> nat \<Rightarrow> rat" where
  "binary64_quotient a b =
     (if a = 0 then 0
      else let ulp = 2 powi (binary_exponent a b - 52)
           in of_int (round_half_even (of_nat a / of_nat b / ulp)) * ulp)"

text \<open>The operator \<open>/\<close> on non-negative integers.\<close>

definition js_divide :: "nat \<Rightarrow> nat \<Rightarrow> jsnumber" where
  "js_divide a b =
     (if b = 0 then (if a = 0 then NaN else Infinity) else Finite (binary64_quotient a b))"

fun Math_ceil :: "jsnumber \<Rightarrow> jsnumber" where
  "Math_ceil (Finite x) = Finite (of_int \<lceil>x\<rceil>)"
| "Math_ceil Infinity = Infinity"
| "Math_ceil NaN = NaN"

text \<open>The comparison \<open>x >= y\<close> of a finite number with a number.\<close>

fun js_ge :: "rat \<Rightarrow> jsnumber \<Rightarrow> bool" where
  "js_ge x (Finite y) = (y \<le> x)"
| "js_ge x Infinity = False"
| "js_ge x NaN = False"

subsection \<open>Strings\<close>

definition lower_char :: "char \<Rightarrow> char" where
  "lower_char c =
     (case map_of (zip ''ABCDEFGHIJKLMNOPQRSTUVWXYZ'' ''abcdefghijklmnopqrstuvwxyz'') c of
        Some l \<Rightarrow> l
      | None \<Rightarrow> c)"

definition toLowerCase :: "string \<Rightarrow> string" where
  "toLowerCase s = map lower_char s"

text \<open>\<open>s.includes(t)\<close>: \<open>t\<close> occurs in \<open>s\<close> at some position, searched from the left.\<close>

fun String_includes :: "string \<Rightarrow> string \<Rightarrow> bool" where
  "String_includes [] t = (t = [])"
| "String_includes (c # s) t = (prefix t (c # s) \<or> String_includes s t)"

definition is_whitespace :: "char \<Rightarrow> bool" where
  "is_whitespace c = (c \<in> set [CHR 0x09, CHR 0x0A, CHR 0x0B, CHR 0x0C, CHR 0x0D, CHR '' ''])"

definition trim :: "string \<Rightarrow> string" where
  "trim s = rev (dropWhile is_whitespace (rev (dropWhile is_whitespace s)))"

text \<open>A string is truthy when it is not empty.\<close>

definition truthy :: "string \<Rightarrow> bool" where
  "truthy s = (s \<noteq> [])"




subsection \<open>Pagination helpers\<close>

definition ITEMS_PER_PAGE :: nat where
  "ITEMS_PER_PAGE = 5"

text \<open>
  \<open>Array.prototype.slice(start, end)\<close> for integer arguments: a negative index counts
  from the end of the array, and both indices are clamped to the array.
\<close>

definition Array_slice :: "'a list \<Rightarrow> int \<Rightarrow> int \<Rightarrow> 'a list" where
  "Array_slice xs start fin =
     (let len = int (length xs);
          k = (if start < 0 then max (len + start) 0 else min start len);
          final = (if fin < 0 then max (len + fin) 0 else min fin len)
      in take (nat (final - k)) (drop (nat k) xs))"

definition getPaginatedData :: "'a list \<Rightarrow> int \<Rightarrow> nat \<Rightarrow> 'a list" where
  "getPaginatedData items page itemsPerPage =
     (let startIndex = (page - 1) * int itemsPerPage
      in Array_slice items startIndex (startIndex + int itemsPerPage))"

definition getPageCount :: "nat \<Rightarrow> nat \<Rightarrow> jsnumber" where
  "getPageCount totalItems itemsPerPage = Math_ceil (js_divide totalItems itemsPerPage)"

subsection \<open>Component state\<close>

text \<open>The four loading flags of \<open>componentLoading\<close> (metrics, nodes, versions, peers).\<close>

record ComponentLoading =
  cl_metrics :: bool
  cl_nodes :: bool
  cl_versions :: bool
  cl_peers :: bool

text \<open>
  The \<open>useState\<close> cells of \<open>Dashboard\<close>. The error is \<open>null\<close> (\<open>None\<close>) or a message.
\<close>

record Dashboard =
  metrics :: "MetricRow list"
  activeNodes :: "NodeRecord list"
  timeframe :: string
  loading :: bool
  error :: "string option"
  componentLoading :: ComponentLoading
  versionPage :: int
  peerPage :: int
  searchQuery :: string
  searchResults :: "string list"
  isSearching :: bool

definition initialState :: Dashboard where
  "initialState =
     \<lparr>metrics = [], activeNodes = [], timeframe = ''7d'', loading = True, error = None,
      componentLoading = \<lparr>cl_metrics = True, cl_nodes = True, cl_versions = True, cl_peers = True\<rparr>,
      versionPage = 1, peerPage = 1, searchQuery = [], searchResults = [], isSearching = False\<rparr>"

subsection \<open>Search\<close>

text \<open>
  The filter of the search effect:
  \<open>activePeerIds.filter(peerId => peerId.toLowerCase().includes(searchQuery.toLowerCase()))\<close>.
\<close>

definition searchFilter :: "string list \<Rightarrow> string \<Rightarrow> string list" where
  "searchFilter peerIds query =
     filter (\<lambda>peerId. String_includes (toLowerCase peerId) (toLowerCase query)) peerIds"

text \<open>The effect that runs after a render in which \<open>searchQuery\<close> has changed.\<close>

definition searchEffect :: "Dashboard \<Rightarrow> Dashboard" where
  "searchEffect st =
     (if truthy (trim (searchQuery st)) then
        let st1 = st\<lparr>isSearching := True\<rparr>;
            results = searchFilter (activePeerIds (activeNodes st)) (searchQuery st);
            st2 = st1\<lparr>searchResults := results\<rparr>;
            st3 = st2\<lparr>peerPage := 1\<rparr>
        in st3\<lparr>isSearching := False\<rparr>
      else st\<lparr>searchResults := []\<rparr>)"

text \<open>
  Typing in the search box: \<open>onChange={(e) => setSearchQuery(e.target.value)}\<close>. A value
  equal to the current one leaves the state as it is; a different one is stored, and the
  search effect runs after the render.
\<close>

definition setSearchQuery :: "string \<Rightarrow> Dashboard \<Rightarrow> Dashboard" where
  "setSearchQuery v st =
     (if v = searchQuery st then st else searchEffect (st\<lparr>searchQuery := v\<rparr>))"

subsection \<open>Values computed by a render\<close>

definition currentActiveNodes :: "NodeRecord list \<Rightarrow> nat" where
  "currentActiveNodes nodes = length nodes"

definition displayPeerIds :: "Dashboard \<Rightarrow> string list" where
  "displayPeerIds st =
     (if truthy (searchQuery st) then searchResults st else activePeerIds (activeNodes st))"

definition paginatedPeerIds :: "Dashboard \<Rightarrow> string list" where
  "paginatedPeerIds st = getPaginatedData (displayPeerIds st) (peerPage st) ITEMS_PER_PAGE"

definition totalPeerPages :: "Dashboard \<Rightarrow> jsnumber" where
  "totalPeerPages st = getPageCount (length (displayPeerIds st)) ITEMS_PER_PAGE"

subsection \<open>Pagination controls\<close>

text \<open>
  The two buttons of \<open>PaginationControls\<close>: each is disabled at its end of the range, and
  a click on a disabled button does nothing.
\<close>

definition previousPage :: "int \<Rightarrow> int" where
  "previousPage currentPage = (if currentPage \<le> 1 then currentPage else currentPage - 1)"

definition nextPage :: "int \<Rightarrow> jsnumber \<Rightarrow> int" where
  "nextPage currentPage totalPages =
     (if js_ge (of_int currentPage) totalPages then currentPage else currentPage + 1)"

definition nextPeerPage :: "Dashboard \<Rightarrow> Dashboard" where
  "nextPeerPage st = st\<lparr>peerPage := nextPage (peerPage st) (totalPeerPages st)\<rparr>"

subsection \<open>The rendered view\<close>

text \<open>The body of the peer-id card, below the search box.\<close>

datatype PeerPanel =
  PeerSkeleton
  | NoActivePeers
  | SearchSpinner
  | NoMatchingPeers
  | PeerList "string list" int jsnumber

definition peerPanel :: "Dashboard \<Rightarrow> PeerPanel" where
  "peerPanel st =
     (if cl_peers (componentLoading st) then PeerSkeleton
      else if length (activePeerIds (activeNodes st)) = 0 then NoActivePeers
      else if isSearching st then SearchSpinner
      else if truthy (searchQuery st) \<and> length (searchResults st) = 0 then NoMatchingPeers
      else PeerList (paginatedPeerIds st) (peerPage st) (totalPeerPages st))"

text \<open>
  The names in scope where \<open>Dashboard\<close> builds its view: the imports of \<open>index.js\<close>
  (lines 3 to 40), its two module constants, the component itself and the constants it
  declares. A JavaScript module has no other bindings (apart from the globals of the
  language and the browser), and evaluating an identifier without a binding throws a
  \<open>ReferenceError\<close>.
\<close>

definition bound_names :: "string list" where
  "bound_names =
     [''useEffect'', ''useState'', ''createClient'', ''motion'', ''format'', ''isToday'',
      ''isYesterday'', ''Image'', ''Activity'', ''Users'', ''Network'', ''Database'',
      ''Clock'', ''AlertTriangle'', ''RotateCw'', ''Search'', ''ChevronLeft'',
      ''ChevronRight'', ''Globe'', ''Info'', ''LineChart'', ''Line'', ''XAxis'', ''YAxis'',
      ''CartesianGrid'', ''Tooltip'', ''ResponsiveContainer'', ''Tabs'', ''TabsContent'',
      ''TabsList'', ''TabsTrigger'', ''Dialog'', ''DialogContent'', ''DialogDescription'',
      ''DialogHeader'', ''DialogTitle'', ''DialogTrigger'', ''Head'', ''supabase'',
      ''ITEMS_PER_PAGE'', ''Dashboard'', ''metrics'', ''setMetrics'', ''activeNodes'',
      ''setActiveNodes'', ''timeframe'', ''setTimeframe'', ''loading'', ''setLoading'',
      ''error'', ''setError'', ''componentLoading'', ''setComponentLoading'',
      ''versionPage'', ''setVersionPage'', ''peerPage'', ''setPeerPage'', ''searchQuery'',
      ''setSearchQuery'', ''searchResults'', ''setSearchResults'', ''isSearching'',
      ''setIsSearching'', ''fetchData'', ''getPaginatedData'', ''getPageCount'',
      ''PaginationControls'', ''ComponentSkeleton'', ''formatLastUpdated'',
      ''currentActiveNodes'', ''averagePeerCount'', ''activePeerIds'', ''totalNodes'',
      ''versionDistribution'', ''lastUpdated'', ''versionEntries'', ''paginatedVersions'',
      ''displayPeerIds'', ''paginatedPeerIds'', ''totalVersionPages'', ''totalPeerPages'']"

datatype render_error = ReferenceError string

text \<open>
  The content of the \<open>main\<close> element: the element \<open>ErrorState\<close> with the message when
  \<open>error\<close> is truthy, the sections of the dashboard otherwise. Building the element
  evaluates the identifier \<open>ErrorState\<close>. Of the sections only the peer-id card is
  modelled.
\<close>

datatype MainView = ErrorView string | Sections PeerPanel

definition mainView :: "Dashboard \<Rightarrow> render_error + MainView" where
  "mainView st =
     (case error st of
        None \<Rightarrow> Inr (Sections (peerPanel st))
      | Some message \<Rightarrow>
          if truthy message
          then (if ''ErrorState'' \<in> set bound_names
                then Inr (ErrorView message)
                else Inl (ReferenceError ''ErrorState''))
          else Inr (Sections (peerPanel st)))"

subsection \<open>Loading the data\<close>

text \<open>
  The result of a query of the data store, \<open>{ data, error }\<close>: the rows or \<open>null\<close>, and
  \<open>null\<close> or an error, of which only the message is used.
\<close>

datatype 'row response = Response (data: "'row list option") (err: "string option")

text \<open>
  \<open>fetchData\<close> is a sequence of state updates and queries. The updates are the calls of
  the setters, in program order; \<open>ClearMetricsLoading\<close> and \<open>ClearNodesLoading\<close> are the
  two functional updates of \<open>componentLoading\<close>.
\<close>

datatype action =
  SetLoading bool
  | SetError "string option"
  | SetComponentLoading ComponentLoading
  | ClearMetricsLoading
  | ClearNodesLoading
  | SetMetrics "MetricRow list"
  | SetActiveNodes "NodeRecord list"
  | QueryMetrics nat
  | QueryNodes

fun is_query :: "action \<Rightarrow> bool" where
  "is_query (QueryMetrics n) = True"
| "is_query QueryNodes = True"
| "is_query a = False"

fun apply_action :: "Dashboard \<Rightarrow> action \<Rightarrow> Dashboard" where
  "apply_action st (SetLoading b) = st\<lparr>loading := b\<rparr>"
| "apply_action st (SetError e) = st\<lparr>error := e\<rparr>"
| "apply_action st (SetComponentLoading c) = st\<lparr>componentLoading := c\<rparr>"
| "apply_action st ClearMetricsLoading =
     st\<lparr>componentLoading := (componentLoading st)\<lparr>cl_metrics := False\<rparr>\<rparr>"
| "apply_action st ClearNodesLoading =
     st\<lparr>componentLoading :=
          (componentLoading st)\<lparr>cl_nodes := False, cl_versions := False, cl_peers := False\<rparr>\<rparr>"
| "apply_action st (SetMetrics rows) = st\<lparr>metrics := rows\<rparr>"
| "apply_action st (SetActiveNodes rows) = st\<lparr>activeNodes := rows\<rparr>"
| "apply_action st (QueryMetrics n) = st"
| "apply_action st QueryNodes = st"

text \<open>\<open>data || []\<close> and \<open>!data?.length\<close>.\<close>

definition or_empty :: "'a list option \<Rightarrow> 'a list" where
  "or_empty d = (case d of None \<Rightarrow> [] | Some rows \<Rightarrow> rows)"

definition no_length :: "'a list option \<Rightarrow> bool" where
  "no_length d = (case d of None \<Rightarrow> True | Some rows \<Rightarrow> length rows = 0)"

definition metricsLimit :: "string \<Rightarrow> nat" where
  "metricsLimit tf = (if tf = ''7d'' then 7 else if tf = ''30d'' then 30 else 365)"

text \<open>
  The actions of one call of \<open>fetchData\<close>, for the timeframe of the render that created
  it and the results of the two queries. A query result with an error is thrown and
  caught by the \<open>catch\<close> block, which stores its message; the \<open>finally\<close> block ends
  every path.
\<close>

definition fetchData :: "string \<Rightarrow> MetricRow response \<Rightarrow> NodeRecord response \<Rightarrow> action list" where
  "fetchData tf metricsResult nodesResult =
     [SetLoading True,
      SetError None,
      SetComponentLoading
        \<lparr>cl_metrics = True, cl_nodes = True, cl_versions = True, cl_peers = True\<rparr>,
      QueryMetrics (metricsLimit tf)]
     @ (case err metricsResult of
          Some message \<Rightarrow> [SetError (Some message)]
        | None \<Rightarrow>
            [SetMetrics (or_empty (data metricsResult)), ClearMetricsLoading, QueryNodes]
            @ (case err nodesResult of
                 Some message \<Rightarrow> [SetError (Some message)]
               | None \<Rightarrow>
                   [SetActiveNodes (or_empty (data nodesResult)), ClearNodesLoading]
                   @ (if no_length (data metricsResult) \<and> no_length (data nodesResult)
                      then [SetError (Some ''No data available'')]
                      else [])))
     @ [SetLoading False]"

definition run :: "Dashboard \<Rightarrow> action list \<Rightarrow> Dashboard" where
  "run st actions = foldl apply_action st actions"

text \<open>The state updates that a call of \<open>fetchData\<close> makes before its first query.\<close>

definition before_first_query :: "action list \<Rightarrow> action list" where
  "before_first_query actions = takeWhile (\<lambda>a. \<not> is_query a) actions"

subsection \<open>Statistics\<close>





text \<open>
  The version distribution is an object built from \<open>{}\<close> by
  \<open>acc[node.version] = (acc[node.version] || 0) + 1\<close>. It is modelled by the list of its
  own properties in insertion order. An object created by \<open>{}\<close> inherits the members of
  \<open>Object.prototype\<close>: reading a key that names one of them, before the object has a
  property of its own under that key, yields that member (a function or an object,
  which is truthy), and adding \<open>1\<close> to it yields a string, the text of the member
  followed by \<open>1\<close>. \<open>Text\<close> stands for such a string; adding \<open>1\<close> to it again gives a
  longer string. An assignment to \<open>__proto__\<close> of a value that is not an object is
  ignored.
\<close>

datatype tally = Number nat | Text

definition Object_prototype_names :: "string list" where
  "Object_prototype_names =
     [''constructor'', ''__defineGetter__'', ''__defineSetter__'', ''hasOwnProperty'',
      ''__lookupGetter__'', ''__lookupSetter__'', ''isPrototypeOf'',
      ''propertyIsEnumerable'', ''toString'', ''valueOf'', ''__proto__'',
      ''toLocaleString'']"

text \<open>Assignment to a property that the object already has.\<close>

definition put :: "(string \<times> tally) list \<Rightarrow> string \<Rightarrow> tally \<Rightarrow> (string \<times> tally) list" where
  "put obj k v = map (\<lambda>(k', v'). if k' = k then (k', v) else (k', v')) obj"

definition countVersion :: "(string \<times> tally) list \<Rightarrow> NodeRecord \<Rightarrow> (string \<times> tally) list" where
  "countVersion acc node =
     (let v = version node
      in case map_of acc v of
           Some (Number c) \<Rightarrow> put acc v (Number (c + 1))
         | Some Text \<Rightarrow> put acc v Text
         | None \<Rightarrow>
             if v \<in> set Object_prototype_names
             then (if v = ''__proto__'' then acc else acc @ [(v, Text)])
             else acc @ [(v, Number 1)])"

definition versionDistribution :: "NodeRecord list \<Rightarrow> (string \<times> tally) list" where
  "versionDistribution nodes = foldl countVersion [] nodes"

text \<open>
  The entries of the version distribution, their page count and the next button of the
  version list. (\<open>Object.entries\<close> lists keys that are array indices first; the number
  of entries does not depend on the order.)
\<close>

definition versionEntries :: "Dashboard \<Rightarrow> (string \<times> tally) list" where
  "versionEntries st = versionDistribution (activeNodes st)"

definition totalVersionPages :: "Dashboard \<Rightarrow> jsnumber" where
  "totalVersionPages st = getPageCount (length (versionEntries st)) ITEMS_PER_PAGE"

definition nextVersionPage :: "Dashboard \<Rightarrow> Dashboard" where
  "nextVersionPage st = st\<lparr>versionPage := nextPage (versionPage st) (totalVersionPages st)\<rparr>"

subsection \<open>Notions used to state the properties\<close>





text \<open>The counts of a version distribution and their sum.\<close>

fun count_of :: "tally \<Rightarrow> nat" where
  "count_of (Number c) = c"
| "count_of Text = 0"

fun is_count :: "tally \<Rightarrow> bool" where
  "is_count (Number c) = True"
| "is_count Text = False"

definition all_counts :: "(string \<times> tally) list \<Rightarrow> bool" where
  "all_counts obj = list_all (\<lambda>(k, v). is_count v) obj"

definition total_count :: "(string \<times> tally) list \<Rightarrow> nat" where
  "total_count obj = sum_list (map (\<lambda>(k, v). count_of v) obj)"

text \<open>No row has a version that names a member of \<open>Object.prototype\<close>.\<close>

definition plain_versions :: "NodeRecord list \<Rightarrow> bool" where
  "plain_versions nodes = list_all (\<lambda>node. version node \<notin> set Object_prototype_names) nodes"

subsection \<open>Example states\<close>

definition example_node :: "string \<Rightarrow> NodeRecord" where
  "example_node pid = \<lparr>peer_id = pid, version = ''1.0'', peer_count = 4, timestamp = 0\<rparr>"

text \<open>
  The state after the first load, when the metrics query returned no rows and the nodes
  query returned the given rows.
\<close>

definition loaded :: "NodeRecord list \<Rightarrow> Dashboard" where
  "loaded nodes =
     run initialState (fetchData ''7d'' (Response (Some []) None) (Response (Some nodes) None))"

text \<open>Eleven rows of eleven distinct peers, whose ids all contain the letter \<open>p\<close>.\<close>

definition eleven_nodes :: "NodeRecord list" where
  "eleven_nodes =
     map example_node
       [''pa'', ''pb'', ''pc'', ''pd'', ''pe'', ''pf'', ''pg'', ''ph'', ''pi'', ''pj'', ''pk'']"



definition scenario_nodes :: "NodeRecord list" where
  "scenario_nodes =
     [\<lparr>peer_id = ''A'', version = ''1.0'', peer_count = 4, timestamp = 3\<rparr>,
      \<lparr>peer_id = ''A'', version = ''1.0'', peer_count = 6, timestamp = 2\<rparr>,
      \<lparr>peer_id = ''B'', version = ''1.1'', peer_count = 2, timestamp = 1\<rparr>]"

text \<open>Eleven rows of eleven distinct peers, each with a version of its own.\<close>

definition eleven_versions :: "NodeRecord list" where
  "eleven_versions =
     map (\<lambda>p. \<lparr>peer_id = p, version = ''v'' @ p, peer_count = 4, timestamp = 0\<rparr>)
       [''pa'', ''pb'', ''pc'', ''pd'', ''pe'', ''pf'', ''pg'', ''ph'', ''pi'', ''pj'', ''pk'']"

text \<open>
  Two states reached by clicks after the load of these rows: on page 3 of the peers and
  page 2 of the versions without a query, and on page 2 of the results of the query
  \<open>p\<close> and page 2 of the versions.
\<close>

definition browsing :: Dashboard where
  "browsing = nextVersionPage (nextPeerPage (nextPeerPage (loaded eleven_versions)))"

definition browsing_results :: Dashboard where
  "browsing_results = nextVersionPage (nextPeerPage (setSearchQuery ''p'' (loaded eleven_versions)))"

fun sets_error :: "action \<Rightarrow> bool" where
  "sets_error (SetError (Some message)) = True"
| "sets_error a = False"

section \<open>Properties\<close>

subsection \<open>The binary64 quotient\<close>

lemma bit_length_bounds:
  "0 < n \<Longrightarrow> 2 ^ (bit_length n - 1) \<le> n \<and> n < 2 ^ bit_length n"
proof (induction n rule: bit_length.induct)
  case (1 n)
  show ?case
  proof (cases "n div 2 = 0")
    case True
    with 1 have "n = 1" by (simp add: div_eq_0_iff)
    then show ?thesis by (simp add: bit_length.simps [of "Suc 0"] bit_length.simps [of 0])
  next
    case False
    then have ih: "2 ^ (bit_length (n div 2) - 1) \<le> n div 2
                   \<and> n div 2 < 2 ^ bit_length (n div 2)"
      using 1 by simp
    have pos: "0 < bit_length (n div 2)"
      using False by (simp add: bit_length.simps [of "n div 2"])
    have eq: "bit_length n = Suc (bit_length (n div 2))"
      using 1(2) by (simp add: bit_length.simps [of n])
    have "2 * 2 ^ (bit_length (n div 2) - 1) \<le> n" using ih by linarith
    moreover have "2 * 2 ^ (bit_length (n div 2) - 1) = (2::nat) ^ bit_length (n div 2)"
      using pos by (cases "bit_length (n div 2)") simp_all
    moreover have "n < 2 * 2 ^ bit_length (n div 2)" using ih by linarith
    ultimately show ?thesis by (simp add: eq)
  qed
qed

lemma binary_exponent_bounds:
  assumes "0 < a" "0 < b"
  shows "2 powi binary_exponent a b \<le> (of_nat a / of_nat b :: rat)"
    and "(of_nat a / of_nat b :: rat) < 2 powi (binary_exponent a b + 1)"
proof -
  let ?la = "bit_length a" and ?lb = "bit_length b"
  let ?q = "of_nat a / of_nat b :: rat"
  have la: "2 ^ (?la - 1) \<le> a" "a < 2 ^ ?la" using bit_length_bounds [OF assms(1)] by auto
  have lb: "2 ^ (?lb - 1) \<le> b" "b < 2 ^ ?lb" using bit_length_bounds [OF assms(2)] by auto
  have lapos: "0 < ?la" using assms(1) by (simp add: bit_length.simps [of a])
  have lbpos: "0 < ?lb" using assms(2) by (simp add: bit_length.simps [of b])
  have bq: "(0::rat) < of_nat b" using assms by simp
  have d_eq: "(2::rat) powi (int ?la - int ?lb) = 2 ^ ?la / 2 ^ ?lb"
    by (simp add: power_int_diff)
  have d1_eq: "(2::rat) powi (int ?la - int ?lb - 1) = 2 ^ (?la - 1) / 2 ^ ?lb"
  proof -
    have "int ?la - int ?lb - 1 = int (?la - 1) - int ?lb" using lapos by simp
    then have "(2::rat) powi (int ?la - int ?lb - 1) = 2 powi (int (?la - 1) - int ?lb)"
      by (rule arg_cong)
    also have "\<dots> = 2 ^ (?la - 1) / 2 ^ ?lb" by (simp add: power_int_diff)
    finally show ?thesis .
  qed
  have d2_eq: "(2::rat) powi (int ?la - int ?lb + 1) = 2 ^ ?la / 2 ^ (?lb - 1)"
  proof -
    have "int ?la - int ?lb + 1 = int ?la - int (?lb - 1)" using lbpos by simp
    then have "(2::rat) powi (int ?la - int ?lb + 1) = 2 powi (int ?la - int (?lb - 1))"
      by (rule arg_cong)
    also have "\<dots> = 2 ^ ?la / 2 ^ (?lb - 1)" by (simp add: power_int_diff)
    finally show ?thesis .
  qed
  have up: "?q < 2 ^ ?la / 2 ^ (?lb - 1)"
  proof -
    have "(of_nat a :: rat) < 2 ^ ?la"
      using la(2) by (metis of_nat_less_iff of_nat_numeral of_nat_power)
    moreover have "(2::rat) ^ (?lb - 1) \<le> of_nat b"
      using lb(1) by (metis of_nat_le_iff of_nat_numeral of_nat_power)
    ultimately show ?thesis using bq
      by (intro frac_less) auto
  qed
  have low: "2 ^ (?la - 1) / 2 ^ ?lb \<le> ?q"
  proof -
    have "(of_nat b :: rat) \<le> 2 ^ ?lb"
      using lb(2) by (metis less_imp_le of_nat_le_iff of_nat_numeral of_nat_power)
    moreover have "(2::rat) ^ (?la - 1) \<le> of_nat a"
      using la(1) by (metis of_nat_le_iff of_nat_numeral of_nat_power)
    ultimately show ?thesis using bq
      by (intro frac_le) auto
  qed
  show "2 powi binary_exponent a b \<le> ?q"
  proof (cases "b * 2 ^ ?la \<le> a * 2 ^ ?lb")
    case True
    then have "(of_nat (b * 2 ^ ?la) :: rat) \<le> of_nat (a * 2 ^ ?lb)"
      by (simp only: of_nat_le_iff)
    then have "(of_nat b :: rat) * 2 ^ ?la \<le> of_nat a * 2 ^ ?lb" by simp
    then have "(2::rat) ^ ?la / 2 ^ ?lb \<le> ?q" using bq by (simp add: field_simps)
    then show ?thesis using True by (simp add: binary_exponent_def d_eq)
  next
    case False
    then show ?thesis using low by (simp add: binary_exponent_def d1_eq)
  qed
  show "?q < 2 powi (binary_exponent a b + 1)"
  proof (cases "b * 2 ^ ?la \<le> a * 2 ^ ?lb")
    case True
    then show ?thesis using up by (simp add: binary_exponent_def d2_eq)
  next
    case False
    then have "a * 2 ^ ?lb < b * 2 ^ ?la" by simp
    then have "(of_nat (a * 2 ^ ?lb) :: rat) < of_nat (b * 2 ^ ?la)"
      by (simp only: of_nat_less_iff)
    then have "(of_nat a :: rat) * 2 ^ ?lb < of_nat b * 2 ^ ?la" by simp
    then have "?q < (2::rat) ^ ?la / 2 ^ ?lb" using bq by (simp add: field_simps)
    then show ?thesis using False by (simp add: binary_exponent_def d_eq)
  qed
qed

lemma round_half_even_of_int: "round_half_even (of_int z) = z"
  by (simp add: round_half_even_def)

lemma round_half_even_error: "\<bar>of_int (round_half_even x) - x\<bar> \<le> 1 / 2"
proof -
  have "of_int \<lfloor>x\<rfloor> \<le> x" "x < of_int \<lfloor>x\<rfloor> + 1" by linarith+
  then show ?thesis
    by (auto simp: round_half_even_def Let_def abs_le_iff)
qed

text \<open>The relative error of the rounded quotient is at most \<open>2 ^ - 53\<close>.\<close>

lemma binary64_quotient_error:
  assumes "0 < a" "0 < b"
  shows "\<bar>binary64_quotient a b - of_nat a / of_nat b\<bar> \<le> of_nat a / of_nat b / 2 ^ 53"
proof -
  let ?q = "of_nat a / of_nat b :: rat"
  define u :: rat where "u = 2 powi (binary_exponent a b - 52)"
  have upos: "0 < u" by (simp add: u_def)
  have x: "binary64_quotient a b = of_int (round_half_even (?q / u)) * u"
    using assms by (simp add: binary64_quotient_def u_def Let_def)
  have "binary64_quotient a b - ?q = (of_int (round_half_even (?q / u)) - ?q / u) * u"
    using upos by (simp add: x field_simps)
  then have "\<bar>binary64_quotient a b - ?q\<bar>
               = \<bar>of_int (round_half_even (?q / u)) - ?q / u\<bar> * u"
    using upos by (simp add: abs_mult)
  also have "\<dots> \<le> 1 / 2 * u"
    using round_half_even_error [of "?q / u"] upos by (intro mult_right_mono) auto
  also have "1 / 2 * u = 2 powi binary_exponent a b / 2 ^ 53"
  proof -
    have "u = 2 powi binary_exponent a b / 2 powi 52"
      unfolding u_def by (simp add: power_int_diff)
    then show ?thesis by simp
  qed
  also have "\<dots> \<le> ?q / 2 ^ 53"
    using binary_exponent_bounds(1) [OF assms] by (simp add: divide_right_mono)
  finally show ?thesis .
qed

text \<open>A quotient that is an integer below \<open>2 ^ 53\<close> is computed exactly.\<close>

lemma binary64_quotient_exact:
  assumes "0 < b" "0 < k" "k < 2 ^ 53"
  shows "binary64_quotient (k * b) b = of_nat k"
proof -
  let ?e = "binary_exponent (k * b) b"
  have q: "(of_nat (k * b) / of_nat b :: rat) = of_nat k" using assms by simp
  have kb: "0 < k * b" using assms by simp
  have "2 powi ?e \<le> (of_nat k :: rat)"
    using binary_exponent_bounds(1) [OF kb assms(1)] by (simp only: q)
  moreover have "(of_nat k :: rat) < 2 powi 53"
  proof -
    have "(of_nat k :: rat) < of_nat (2 ^ 53)" using assms(3) by (simp only: of_nat_less_iff)
    then show ?thesis by simp
  qed
  ultimately have "(2::rat) powi ?e < 2 powi 53" by linarith
  then have e: "?e < 53" by (rule power_int_le_imp_less_exp [rotated]) simp_all
  define m where "m = nat (52 - ?e)"
  have u: "(2::rat) powi (?e - 52) = 1 / 2 ^ m"
  proof -
    have "?e - 52 = - int m" using e by (simp add: m_def)
    then show ?thesis by (simp add: power_int_minus_divide)
  qed
  have "of_nat k * 2 ^ m = (of_int (int k * 2 ^ m) :: rat)" by simp
  then have r: "round_half_even (of_nat k * 2 ^ m) = int k * 2 ^ m"
    by (simp only: round_half_even_of_int)
  have "binary64_quotient (k * b) b
          = of_int (round_half_even (of_nat k / (1 / 2 ^ m))) * (1 / 2 ^ m)"
    using kb by (simp add: binary64_quotient_def Let_def q u del: of_nat_mult)
  also have "\<dots> = of_int (round_half_even (of_nat k * 2 ^ m)) / 2 ^ m" by simp
  also have "\<dots> = of_nat k" by (simp add: r)
  finally show ?thesis .
qed

subsection \<open>Page count\<close>

lemma ceiling_binary64_quotient_5:
  assumes "t < 2 ^ 53"
  shows "\<lceil>binary64_quotient t 5\<rceil> = \<lceil>(of_nat t :: rat) / 5\<rceil>"
proof (cases "t mod 5 = 0")
  case True
  then have "t = (t div 5) * 5" by presburger
  then obtain k where t: "t = k * 5" ..
  show ?thesis
  proof (cases "k = 0")
    case True
    then show ?thesis by (simp add: t binary64_quotient_def)
  next
    case False
    then have "binary64_quotient (k * 5) 5 = of_nat k"
      using assms t by (intro binary64_quotient_exact) auto
    then show ?thesis by (simp add: t)
  qed
next
  case False
  define k where "k = t div 5"
  define r where "r = t mod 5"
  have t: "t = 5 * k + r" and r: "1 \<le> r" "r \<le> 4"
    using False by (auto simp: k_def r_def)
  let ?q = "(of_nat t :: rat) / 5"
  have q: "?q = of_nat k + of_nat r / 5" by (simp add: t)
  have qlo: "of_nat k + 1 / 5 \<le> ?q" using r(1) by (simp add: q)
  have qhi: "?q \<le> of_nat k + 4 / 5"
  proof -
    have "(of_nat r :: rat) \<le> of_nat 4" using r(2) by (simp only: of_nat_le_iff)
    then show ?thesis by (simp add: q)
  qed
  have "(of_nat t :: rat) < of_nat (2 ^ 53)" using assms by (simp only: of_nat_less_iff)
  then have small: "?q / 2 ^ 53 < 1 / 5" by simp
  have "0 < t" using False by (cases t) auto
  then have "\<bar>binary64_quotient t 5 - of_nat t / of_nat 5\<bar>
               \<le> of_nat t / of_nat 5 / 2 ^ 53"
    by (intro binary64_quotient_error) auto
  then have err: "\<bar>binary64_quotient t 5 - ?q\<bar> < 1 / 5" using small by simp
  have "of_nat k < binary64_quotient t 5" "binary64_quotient t 5 < of_nat k + 1"
    using err qlo qhi by linarith+
  then have "\<lceil>binary64_quotient t 5\<rceil> = int k + 1"
    by (intro ceiling_unique) auto
  moreover have "\<lceil>?q\<rceil> = int k + 1"
    using qlo qhi by (intro ceiling_unique) auto
  ultimately show ?thesis by simp
qed

lemma getPageCount_ceiling:
  "totalItems < 2 ^ 53 \<Longrightarrow>
     getPageCount totalItems ITEMS_PER_PAGE = Finite (of_int \<lceil>(of_nat totalItems :: rat) / 5\<rceil>)"
  by (simp add: getPageCount_def js_divide_def ITEMS_PER_PAGE_def ceiling_binary64_quotient_5)

text \<open>
  Claim C6. For every total item count (an array length, below \<open>2 ^ 53\<close>), the page count
  for pages of five items is the ceiling of the total divided by five; in particular
  it is 0 for 0 items, 1 for 5 items and 2 for 6 items.
\<close>

theorem C6_getPageCount_ceiling:
  "totalItems < 2 ^ 53 \<Longrightarrow>
     getPageCount totalItems ITEMS_PER_PAGE = Finite (of_int \<lceil>(of_nat totalItems :: rat) / 5\<rceil>)
     \<and> getPageCount 0 ITEMS_PER_PAGE = Finite 0
     \<and> getPageCount 5 ITEMS_PER_PAGE = Finite 1
     \<and> getPageCount 6 ITEMS_PER_PAGE = Finite 2"
proof -
  assume "totalItems < 2 ^ 53"
  then have "getPageCount totalItems ITEMS_PER_PAGE
               = Finite (of_int \<lceil>(of_nat totalItems :: rat) / 5\<rceil>)"
    by (rule getPageCount_ceiling)
  moreover have "getPageCount 0 ITEMS_PER_PAGE = Finite 0"
    using getPageCount_ceiling [of 0] by simp
  moreover have "getPageCount 5 ITEMS_PER_PAGE = Finite 1"
    using getPageCount_ceiling [of 5] by simp
  moreover have "getPageCount 6 ITEMS_PER_PAGE = Finite 2"
  proof -
    have "\<lceil>(6::rat) / 5\<rceil> = 2" by (intro ceiling_unique) auto
    then show ?thesis using getPageCount_ceiling [of 6] by simp
  qed
  ultimately show ?thesis by simp
qed

theorem C6_getPageCount_witness:
  "(11::nat) < 2 ^ 53 \<and> getPageCount 11 ITEMS_PER_PAGE = Finite 3"
proof -
  have "\<lceil>(11::rat) / 5\<rceil> = 3" by (intro ceiling_unique) auto
  then show ?thesis using C6_getPageCount_ceiling [of 11] by simp
qed

subsection \<open>Pagination\<close>

lemma length_Array_slice_window:
  "0 \<le> n \<Longrightarrow> length (Array_slice xs start (start + n)) \<le> nat n"
  by (auto simp: Array_slice_def Let_def)

lemma Array_slice_beyond:
  "int (length xs) \<le> start \<Longrightarrow> Array_slice xs start fin = []"
  by (auto simp: Array_slice_def Let_def)

text \<open>
  Claim C7. For every sequence (an array, of length below \<open>2 ^ 53\<close>) and every page number
  at least 1, a page of the sequence has at most 5 items, and it is empty when the
  page number is greater than the page count of the sequence.
\<close>

theorem C7_getPaginatedData_bounds:
  assumes "1 \<le> page" and "length items < 2 ^ 53"
  shows "length (getPaginatedData items page ITEMS_PER_PAGE) \<le> 5
         \<and> (\<exists>c. getPageCount (length items) ITEMS_PER_PAGE = Finite c
                \<and> (c < of_int page \<longrightarrow> getPaginatedData items page ITEMS_PER_PAGE = []))"
proof -
  let ?c = "\<lceil>(of_nat (length items) :: rat) / 5\<rceil>"
  have "length (getPaginatedData items page ITEMS_PER_PAGE) \<le> 5"
    using length_Array_slice_window [of 5 items "(page - 1) * 5"]
    by (simp add: getPaginatedData_def ITEMS_PER_PAGE_def)
  moreover have "getPageCount (length items) ITEMS_PER_PAGE = Finite (of_int ?c)"
    using assms(2) by (rule getPageCount_ceiling)
  moreover have "getPaginatedData items page ITEMS_PER_PAGE = []"
    if "(of_int ?c :: rat) < of_int page"
  proof -
    from that have "?c < page" by (simp only: of_int_less_iff)
    then have "?c \<le> page - 1" by simp
    then have "(of_nat (length items) :: rat) / 5 \<le> of_int (page - 1)"
      by (simp only: ceiling_le_iff)
    then have "(of_nat (length items) :: rat) \<le> of_int ((page - 1) * 5)" by simp
    then have "(of_int (int (length items)) :: rat) \<le> of_int ((page - 1) * 5)" by simp
    then have "int (length items) \<le> (page - 1) * 5" by (simp only: of_int_le_iff)
    then show ?thesis
      by (simp add: getPaginatedData_def ITEMS_PER_PAGE_def Array_slice_beyond)
  qed
  ultimately show ?thesis by blast
qed

theorem C7_getPaginatedData_witness:
  "(1::int) \<le> 3 \<and> length [1, 2, 3, 4, 5, 6, 7 :: nat] < 2 ^ 53
   \<and> length (getPaginatedData [1, 2, 3, 4, 5, 6, 7 :: nat] 3 ITEMS_PER_PAGE) \<le> 5
   \<and> getPageCount (length [1, 2, 3, 4, 5, 6, 7 :: nat]) ITEMS_PER_PAGE = Finite 2
   \<and> getPaginatedData [1, 2, 3, 4, 5, 6, 7 :: nat] 3 ITEMS_PER_PAGE = []"
proof -
  have c: "\<lceil>(7::rat) / 5\<rceil> = 2" by (intro ceiling_unique) auto
  have l: "length [1, 2, 3, 4, 5, 6, 7 :: nat] = 7" by simp
  have "getPageCount 7 ITEMS_PER_PAGE = Finite 2"
    using getPageCount_ceiling [of 7] c by simp
  then have "getPageCount (length [1, 2, 3, 4, 5, 6, 7 :: nat]) ITEMS_PER_PAGE = Finite 2"
    by (simp only: l)
  then show ?thesis
    using C7_getPaginatedData_bounds [of 3 "[1, 2, 3, 4, 5, 6, 7 :: nat]"] by auto
qed

subsection \<open>Distinct peer ids\<close>

lemma new_Set_snoc: "new_Set (xs @ [x]) = Set_add (new_Set xs) x"
  by (simp add: new_Set_def)

lemma set_new_Set: "set (new_Set xs) = set xs"
  by (induction xs rule: rev_induct) (auto simp: new_Set_snoc Set_add_def new_Set_def)

lemma distinct_new_Set: "distinct (new_Set xs)"
proof (induction xs rule: rev_induct)
  case Nil
  show ?case by (simp add: new_Set_def)
next
  case (snoc x xs)
  then show ?case by (simp add: new_Set_snoc Set_add_def)
qed

lemma first_index_append_mem:
  "a \<in> set xs \<Longrightarrow> first_index (xs @ ys) a = first_index xs a"
  by (simp add: first_index_def takeWhile_append1)

lemma first_index_mem_less: "a \<in> set xs \<Longrightarrow> first_index xs a < length xs"
  unfolding first_index_def by (induction xs) auto

lemma first_index_fresh: "x \<notin> set xs \<Longrightarrow> first_index (xs @ [x]) x = length xs"
  unfolding first_index_def by (induction xs) auto

lemma new_Set_first_seen:
  "sorted_wrt (\<lambda>a b. first_index xs a < first_index xs b) (new_Set xs)"
proof (induction xs rule: rev_induct)
  case Nil
  show ?case by (simp add: new_Set_def)
next
  case (snoc x xs)
  have keep: "sorted_wrt (\<lambda>a b. first_index (xs @ [x]) a < first_index (xs @ [x]) b)
                (new_Set xs)"
    by (rule sorted_wrt_mono_rel [OF _ snoc.IH])
       (simp add: set_new_Set first_index_append_mem)
  show ?case
  proof (cases "x \<in> set xs")
    case True
    then show ?thesis
      using keep by (simp add: new_Set_snoc Set_add_def set_new_Set)
  next
    case False
    have "first_index (xs @ [x]) a < first_index (xs @ [x]) x" if "a \<in> set xs" for a
      using that False
      by (simp add: first_index_append_mem first_index_fresh first_index_mem_less)
    then show ?thesis
      using keep False
      by (simp add: new_Set_snoc Set_add_def set_new_Set sorted_wrt_append)
  qed
qed

text \<open>
  Claim C5. For every nodes collection, the distinct peer ids contain no duplicate, are
  exactly the peer ids of the rows, and are listed in the order of their first
  occurrence in the fetched sequence: an id that comes before another in the result
  is first seen at a smaller position of the input.
\<close>

theorem C5_activePeerIds_distinct_first_seen:
  "distinct (activePeerIds nodes)
   \<and> set (activePeerIds nodes) = set (map peer_id nodes)
   \<and> sorted_wrt (\<lambda>a b. first_index (map peer_id nodes) a
                        < first_index (map peer_id nodes) b)
        (activePeerIds nodes)"
  unfolding activePeerIds_def
  by (simp add: distinct_new_Set set_new_Set new_Set_first_seen)

subsection \<open>Search\<close>

lemma String_includes_sublist: "String_includes s t \<longleftrightarrow> sublist t s"
  by (induction s) (simp_all add: sublist_Cons_right)

lemma searchFilter_example: "searchFilter [''Peer1'', ''peer2''] ''PEER1'' = [''Peer1'']"
  by (simp add: searchFilter_def toLowerCase_def lower_char_def)

text \<open>
  Claim C3. For every list of peer ids and every query, the filter returns exactly the
  ids whose lowercased text contains the lowercased query as a contiguous substring,
  in the order of the input (the result is a subsequence of it); in particular the
  filter of Peer1, peer2 by PEER1 is Peer1 alone.
\<close>

theorem C3_searchFilter_substring:
  "searchFilter peerIds query
     = filter (\<lambda>peerId. sublist (toLowerCase query) (toLowerCase peerId)) peerIds
   \<and> subseq (searchFilter peerIds query) peerIds
   \<and> searchFilter [''Peer1'', ''peer2''] ''PEER1'' = [''Peer1'']"
proof -
  have "searchFilter peerIds query
          = filter (\<lambda>peerId. sublist (toLowerCase query) (toLowerCase peerId)) peerIds"
    by (simp add: searchFilter_def String_includes_sublist)
  moreover have "subseq (searchFilter peerIds query) peerIds"
    by (simp add: searchFilter_def)
  ultimately show ?thesis
    using searchFilter_example by simp
qed

lemma loaded_simps:
  "activeNodes (loaded nodes) = nodes"
  "searchQuery (loaded nodes) = []"
  "searchResults (loaded nodes) = []"
  "peerPage (loaded nodes) = 1"
  "versionPage (loaded nodes) = 1"
  "isSearching (loaded nodes) = False"
  "cl_peers (componentLoading (loaded nodes)) = False"
  by (simp_all add: loaded_def run_def fetchData_def initialState_def or_empty_def no_length_def)

lemma activePeerIds_example: "activePeerIds [example_node ''A''] = [''A'']"
  by (simp add: activePeerIds_def new_Set_def Set_add_def example_node_def)

lemma trim_space: "trim '' '' = []"
  by (simp add: trim_def is_whitespace_def)

text \<open>
  With the empty query the card lists all distinct peer ids, and the message for a
  search without matches is not shown.
\<close>

lemma empty_query_shows_all:
  "displayPeerIds (setSearchQuery [] st) = activePeerIds (activeNodes st)
   \<and> peerPanel (setSearchQuery [] st) \<noteq> NoMatchingPeers"
  by (simp add: setSearchQuery_def searchEffect_def truthy_def displayPeerIds_def
      peerPanel_def trim_def)

text \<open>
  Claim C2 (whitespace-only and empty queries show the full list, without the message
  for a search without matches). The claim holds for the empty query; it fails for a
  query of one space. The effect treats that query as no query (its test is on the
  trimmed text) and stores no results, but the render tests the untrimmed text, which
  is truthy: with one peer \<open>A\<close> loaded, the list shown is empty and the card shows the
  message for a search without matches.
\<close>

theorem C2_whitespace_query_hides_peers:
  "activePeerIds (activeNodes (loaded [example_node ''A''])) = [''A'']
   \<and> trim '' '' = []
   \<and> displayPeerIds (setSearchQuery '' '' (loaded [example_node ''A''])) = []
   \<and> peerPanel (setSearchQuery '' '' (loaded [example_node ''A''])) = NoMatchingPeers"
  by (simp add: loaded_simps activePeerIds_example trim_space setSearchQuery_def
      searchEffect_def truthy_def displayPeerIds_def peerPanel_def)

subsection \<open>Search and the two page numbers\<close>

lemma getPageCount_11: "getPageCount 11 ITEMS_PER_PAGE = Finite 3"
proof -
  have "\<lceil>(11::rat) / 5\<rceil> = 3" by (intro ceiling_unique) auto
  then show ?thesis using getPageCount_ceiling [of 11] by simp
qed

lemma activePeerIds_eleven:
  "activePeerIds eleven_nodes
     = [''pa'', ''pb'', ''pc'', ''pd'', ''pe'', ''pf'', ''pg'', ''ph'', ''pi'', ''pj'', ''pk'']"
  by (simp add: activePeerIds_def new_Set_def Set_add_def example_node_def eleven_nodes_def)

lemma searchFilter_eleven: "searchFilter (activePeerIds eleven_nodes) ''p'' = activePeerIds eleven_nodes"
  by (simp add: activePeerIds_eleven searchFilter_def toLowerCase_def lower_char_def)

lemma searched_eleven:
  "searchQuery (setSearchQuery ''p'' (loaded eleven_nodes)) = ''p''"
  "searchResults (setSearchQuery ''p'' (loaded eleven_nodes)) = activePeerIds eleven_nodes"
  "peerPage (setSearchQuery ''p'' (loaded eleven_nodes)) = 1"
  by (simp_all add: setSearchQuery_def searchEffect_def loaded_simps searchFilter_eleven
      truthy_def trim_def is_whitespace_def)

lemma totalPeerPages_eleven: "totalPeerPages (setSearchQuery ''p'' (loaded eleven_nodes)) = Finite 3"
proof -
  have "displayPeerIds (setSearchQuery ''p'' (loaded eleven_nodes)) = activePeerIds eleven_nodes"
    by (simp add: displayPeerIds_def searched_eleven truthy_def)
  moreover have "length (activePeerIds eleven_nodes) = 11" by (simp add: activePeerIds_eleven)
  ultimately have "length (displayPeerIds (setSearchQuery ''p'' (loaded eleven_nodes))) = 11"
    by (simp only:)
  then show ?thesis by (simp only: totalPeerPages_def getPageCount_11)
qed

text \<open>
  With eleven peers loaded, the query \<open>p\<close> matches all of them and shows page 1 of 3; a
  click on the next button leads to page 2.
\<close>

lemma second_page_of_results:
  "peerPage (nextPeerPage (setSearchQuery ''p'' (loaded eleven_nodes))) = 2
   \<and> searchQuery (nextPeerPage (setSearchQuery ''p'' (loaded eleven_nodes))) = ''p''"
  by (simp add: nextPeerPage_def nextPage_def totalPeerPages_eleven searched_eleven)

text \<open>
  Claim C4 as stated (every change of the query text resets the peer page to 1) fails:
  on page 2 of the results of the query \<open>p\<close>, clearing the search box leaves the peer
  page at 2.
\<close>

theorem C4_page_kept_counterexample:
  "searchQuery (nextPeerPage (setSearchQuery ''p'' (loaded eleven_nodes))) \<noteq> []
   \<and> peerPage (setSearchQuery [] (nextPeerPage (setSearchQuery ''p'' (loaded eleven_nodes)))) = 2"
  using second_page_of_results
  by (simp add: setSearchQuery_def searchEffect_def truthy_def trim_def)

text \<open>
  Claim C4, amended. For every change of the query text, the peer page is reset to 1
  when the new text has a character that is not whitespace, and is left as it was when
  the new text is empty or whitespace only; the version page is unchanged in both
  cases.
\<close>

theorem C4_setSearchQuery_pages:
  "v \<noteq> searchQuery st \<Longrightarrow>
     peerPage (setSearchQuery v st) = (if truthy (trim v) then 1 else peerPage st)
     \<and> versionPage (setSearchQuery v st) = versionPage st"
  by (simp add: setSearchQuery_def searchEffect_def Let_def)

lemma activePeerIds_versions:
  "activePeerIds eleven_versions
     = [''pa'', ''pb'', ''pc'', ''pd'', ''pe'', ''pf'', ''pg'', ''ph'', ''pi'', ''pj'', ''pk'']"
  by (simp add: activePeerIds_def new_Set_def Set_add_def eleven_versions_def)

lemma length_versionDistribution_versions:
  "length (versionDistribution eleven_versions) = 11"
  by (simp add: versionDistribution_def countVersion_def eleven_versions_def
      Object_prototype_names_def)

lemma totalVersionPages_versions:
  "activeNodes st = eleven_versions \<Longrightarrow> totalVersionPages st = Finite 3"
  by (simp only: totalVersionPages_def versionEntries_def
      length_versionDistribution_versions getPageCount_11)

lemma totalPeerPages_versions:
  assumes "activeNodes st = eleven_versions"
    and "searchQuery st = [] \<or> searchResults st = activePeerIds eleven_versions"
  shows "totalPeerPages st = Finite 3"
proof -
  have "displayPeerIds st = activePeerIds eleven_versions"
    using assms by (auto simp: displayPeerIds_def truthy_def)
  moreover have "length (activePeerIds eleven_versions) = 11"
    by (simp add: activePeerIds_versions)
  ultimately have "length (displayPeerIds st) = 11" by (simp only:)
  then show ?thesis by (simp only: totalPeerPages_def getPageCount_11)
qed

lemma browsing_simps:
  "searchQuery browsing = []" "peerPage browsing = 3" "versionPage browsing = 2"
  by (simp_all add: browsing_def nextVersionPage_def nextPeerPage_def nextPage_def
      totalVersionPages_versions totalPeerPages_versions loaded_simps)

lemma searched_versions:
  "searchQuery (setSearchQuery ''p'' (loaded eleven_versions)) = ''p''"
  "searchResults (setSearchQuery ''p'' (loaded eleven_versions)) = activePeerIds eleven_versions"
  "peerPage (setSearchQuery ''p'' (loaded eleven_versions)) = 1"
  "versionPage (setSearchQuery ''p'' (loaded eleven_versions)) = 1"
  "activeNodes (setSearchQuery ''p'' (loaded eleven_versions)) = eleven_versions"
  by (simp_all add: setSearchQuery_def searchEffect_def loaded_simps activePeerIds_versions
      searchFilter_def toLowerCase_def lower_char_def truthy_def trim_def is_whitespace_def)

lemma browsing_results_simps:
  "searchQuery browsing_results = ''p''" "peerPage browsing_results = 2"
  "versionPage browsing_results = 2"
  by (simp_all add: browsing_results_def nextVersionPage_def nextPeerPage_def nextPage_def
      totalVersionPages_versions totalPeerPages_versions searched_versions)

text \<open>
  The theorem at two loaded states: typing \<open>p\<close> on page 3 of the peers resets the peer
  page to 1, clearing the query on page 2 of the results keeps page 2, and the version
  page stays at 2 both times.
\<close>

theorem C4_setSearchQuery_witness:
  "''p'' \<noteq> searchQuery browsing
   \<and> peerPage browsing = 3 \<and> versionPage browsing = 2
   \<and> peerPage (setSearchQuery ''p'' browsing) = 1
   \<and> versionPage (setSearchQuery ''p'' browsing) = 2
   \<and> [] \<noteq> searchQuery browsing_results
   \<and> peerPage browsing_results = 2 \<and> versionPage browsing_results = 2
   \<and> peerPage (setSearchQuery [] browsing_results) = 2
   \<and> versionPage (setSearchQuery [] browsing_results) = 2"
proof -
  have p: "truthy (trim ''p'')" by (simp add: truthy_def trim_def is_whitespace_def)
  have e: "\<not> truthy (trim [])" by (simp add: truthy_def trim_def)
  have "''p'' \<noteq> searchQuery browsing" by (simp add: browsing_simps)
  then have "peerPage (setSearchQuery ''p'' browsing) = 1
             \<and> versionPage (setSearchQuery ''p'' browsing) = 2"
    using C4_setSearchQuery_pages [of "''p''" browsing] p by (simp add: browsing_simps)
  moreover have "[] \<noteq> searchQuery browsing_results" by (simp add: browsing_results_simps)
  then have "peerPage (setSearchQuery [] browsing_results) = 2
             \<and> versionPage (setSearchQuery [] browsing_results) = 2"
    using C4_setSearchQuery_pages [of "[]" browsing_results] e
    by (simp add: browsing_results_simps)
  ultimately show ?thesis by (simp add: browsing_simps browsing_results_simps)
qed

subsection \<open>Loading\<close>

text \<open>
  Claim C9. On every call of the load operation, whatever the state before it and
  whatever the queries return, the updates made before the first query leave the error
  at \<open>null\<close>, all four loading flags set and \<open>loading\<close> set; the first query comes
  after them.
\<close>

theorem C9_fetchData_resets_first:
  "error (run st (before_first_query (fetchData tf metricsResult nodesResult))) = None
   \<and> componentLoading (run st (before_first_query (fetchData tf metricsResult nodesResult)))
       = \<lparr>cl_metrics = True, cl_nodes = True, cl_versions = True, cl_peers = True\<rparr>
   \<and> loading (run st (before_first_query (fetchData tf metricsResult nodesResult))) = True
   \<and> (\<exists>later. fetchData tf metricsResult nodesResult
         = before_first_query (fetchData tf metricsResult nodesResult)
           @ QueryMetrics (metricsLimit tf) # later)"
  by (simp add: fetchData_def before_first_query_def run_def)

text \<open>
  If both queries succeed and both collections come back empty (no rows, or no data at
  all), the load ends with the error message \<open>No data available\<close>, and this is the only
  error it stores.
\<close>

lemma empty_collections_error:
  assumes "err metricsResult = None" and "err nodesResult = None"
    and "data metricsResult = Some [] \<or> data metricsResult = None"
    and "data nodesResult = Some [] \<or> data nodesResult = None"
  shows "error (run st (fetchData tf metricsResult nodesResult)) = Some ''No data available''
         \<and> filter sets_error (fetchData tf metricsResult nodesResult)
             = [SetError (Some ''No data available'')]"
  using assms
  by (auto simp: fetchData_def run_def no_length_def or_empty_def)

text \<open>
  Claim C8 (with both collections empty the load surfaces the error \<open>No data available\<close>
  and the error view replaces the content). The load stores that message, but the
  error view is not shown: the render then evaluates \<open>ErrorState\<close>, a name that
  \<open>index.js\<close> neither imports nor declares, and throws.
\<close>

theorem C8_error_view_unbound:
  "error (run initialState
      (fetchData ''7d'' (Response (Some []) None) (Response (Some []) None)))
     = Some ''No data available''
   \<and> mainView (run initialState
      (fetchData ''7d'' (Response (Some []) None) (Response (Some []) None)))
     = Inl (ReferenceError ''ErrorState'')"
proof -
  have e: "error (run initialState
      (fetchData ''7d'' (Response (Some []) None) (Response (Some []) None)))
     = Some ''No data available''"
    using empty_collections_error
      [of "Response (Some []) None" "Response (Some []) None" initialState "''7d''"]
    by simp
  have "''ErrorState'' \<notin> set bound_names" by (simp add: bound_names_def)
  then show ?thesis by (simp add: e mainView_def truthy_def)
qed

subsection \<open>Average peer count\<close>
















subsection \<open>Version distribution\<close>

lemma put_absent: "k \<notin> fst ` set obj \<Longrightarrow> put obj k v = obj"
  by (induction obj) (auto simp: put_def)

lemma put_counts:
  "distinct (map fst obj) \<Longrightarrow> map_of obj k = Some (Number c) \<Longrightarrow>
     total_count (put obj k (Number (c + 1))) = total_count obj + 1"
proof (induction obj)
  case Nil
  then show ?case by simp
next
  case (Cons p obj)
  obtain k' v' where p: "p = (k', v')" by (cases p)
  show ?case
  proof (cases "k' = k")
    case True
    with Cons.prems p have "v' = Number c" by simp
    moreover have "put obj k (Number (c + 1)) = obj"
      using Cons.prems p True by (intro put_absent) simp
    ultimately show ?thesis using p True by (simp add: put_def total_count_def)
  next
    case False
    then show ?thesis using Cons p by (simp add: put_def total_count_def)
  qed
qed

lemma put_keys: "map fst (put obj k v) = map fst obj"
  by (induction obj) (auto simp: put_def)

lemma put_all_counts: "all_counts obj \<Longrightarrow> all_counts (put obj k (Number c))"
  by (induction obj) (auto simp: put_def all_counts_def split: if_splits)

lemma countVersion_invariant:
  assumes "distinct (map fst acc)" and "all_counts acc"
    and "version node \<notin> set Object_prototype_names"
  shows "distinct (map fst (countVersion acc node))
         \<and> all_counts (countVersion acc node)
         \<and> total_count (countVersion acc node) = total_count acc + 1"
proof (cases "map_of acc (version node)")
  case None
  then have "version node \<notin> fst ` set acc" by (simp add: map_of_eq_None_iff)
  then show ?thesis
    using assms None by (simp add: countVersion_def all_counts_def total_count_def)
next
  case (Some t)
  then have "(version node, t) \<in> set acc" by (rule map_of_SomeD)
  then have "is_count t" using assms(2) by (auto simp: all_counts_def list_all_iff)
  then obtain c where t: "t = Number c" by (cases t) auto
  show ?thesis
    using assms Some t put_counts [of acc "version node" c]
    by (simp add: countVersion_def put_keys put_all_counts)
qed

lemma foldl_countVersion:
  assumes "distinct (map fst acc)" and "all_counts acc" and "plain_versions nodes"
  shows "all_counts (foldl countVersion acc nodes)
         \<and> total_count (foldl countVersion acc nodes) = total_count acc + length nodes"
  using assms
proof (induction nodes arbitrary: acc)
  case Nil
  then show ?case by simp
next
  case (Cons node nodes)
  have v: "version node \<notin> set Object_prototype_names" and rest: "plain_versions nodes"
    using Cons.prems(3) by (simp_all add: plain_versions_def)
  have step: "distinct (map fst (countVersion acc node))"
    "all_counts (countVersion acc node)"
    "total_count (countVersion acc node) = total_count acc + 1"
    using countVersion_invariant [OF Cons.prems(1) Cons.prems(2) v] by blast+
  have "all_counts (foldl countVersion (countVersion acc node) nodes)
         \<and> total_count (foldl countVersion (countVersion acc node) nodes)
             = total_count (countVersion acc node) + length nodes"
    using step(1) step(2) rest by (rule Cons.IH)
  then show ?case using step(3) by simp
qed

text \<open>
  When no version names a member of \<open>Object.prototype\<close>, every entry of the version
  distribution is a count and the counts add up to the number of rows.
\<close>

lemma versionDistribution_counts:
  "plain_versions nodes \<Longrightarrow>
     all_counts (versionDistribution nodes)
     \<and> total_count (versionDistribution nodes) = currentActiveNodes nodes"
  using foldl_countVersion [of "[]" nodes]
  by (simp add: versionDistribution_def currentActiveNodes_def all_counts_def total_count_def)

text \<open>
  Claim C10 (the counts of the version distribution add up to the number of rows). A
  row whose version is \<open>constructor\<close> is not counted: the entry stored for it is a
  string, not a count, so the distribution of this one row has no count at all while
  the number of rows is 1. A row whose version is \<open>__proto__\<close> leaves no entry at all.
\<close>

theorem C10_constructor_not_counted:
  "versionDistribution [\<lparr>peer_id = ''A'', version = ''constructor'', peer_count = 4, timestamp = 0\<rparr>]
     = [(''constructor'', Text)]
   \<and> \<not> all_counts (versionDistribution
        [\<lparr>peer_id = ''A'', version = ''constructor'', peer_count = 4, timestamp = 0\<rparr>])
   \<and> currentActiveNodes [\<lparr>peer_id = ''A'', version = ''constructor'', peer_count = 4, timestamp = 0\<rparr>] = 1
   \<and> versionDistribution [\<lparr>peer_id = ''A'', version = ''__proto__'', peer_count = 4, timestamp = 0\<rparr>]
     = []
   \<and> total_count (versionDistribution
        [\<lparr>peer_id = ''A'', version = ''__proto__'', peer_count = 4, timestamp = 0\<rparr>]) = 0
   \<and> currentActiveNodes [\<lparr>peer_id = ''A'', version = ''__proto__'', peer_count = 4, timestamp = 0\<rparr>] = 1"
  by (simp add: versionDistribution_def countVersion_def Object_prototype_names_def
      currentActiveNodes_def all_counts_def total_count_def)

subsection \<open>The scenario of three rows\<close>

text \<open>
  Two rows of peer \<open>A\<close> with version 1.0 and one row of peer \<open>B\<close> with version 1.1, newest
  first: three active nodes, the distinct peers \<open>A\<close> and \<open>B\<close>, two nodes of version 1.0
  and one of version 1.1.
\<close>

lemma spec_scenario:
  "currentActiveNodes scenario_nodes = 3"
  "activePeerIds scenario_nodes = [''A'', ''B'']"
  "versionDistribution scenario_nodes = [(''1.0'', Number 2), (''1.1'', Number 1)]"
  by (simp_all add: scenario_nodes_def currentActiveNodes_def activePeerIds_def new_Set_def
      Set_add_def versionDistribution_def countVersion_def put_def Object_prototype_names_def)

end
